theory Spec2Isabelle
  imports Main
begin

section \<open>Strings and arrays of the JavaScript source\<close>

text \<open>
  File names and file texts are modelled as \<^typ>\<open>string\<close>. The separator \<open>.\<close>, the
  hyphen and the letters of \<open>.sol\<close> are ASCII, so splitting and replacing act on a name
  character by character exactly as they do on the code units of the JavaScript string.
\<close>

text \<open>
  \<open>String.prototype.split(sep)\<close> for a one-character separator: the pieces between the
  occurrences of the separator, empty pieces included; a string without the separator
  (the empty string too) gives a one-element array.
\<close>

fun js_split :: "char \<Rightarrow> string \<Rightarrow> string list" where
  "js_split sep [] = [[]]"
| "js_split sep (c # cs) =
     (if c = sep then [] # js_split sep cs
      else (case js_split sep cs of
              [] \<Rightarrow> [[c]]
            | w # ws \<Rightarrow> (c # w) # ws))"

text \<open>
  \<open>String.prototype.replace(pattern, replacement)\<close> for a string pattern: only the first
  occurrence of the pattern is replaced.
\<close>

fun replace_first :: "string \<Rightarrow> string \<Rightarrow> string \<Rightarrow> string" where
  "replace_first pat rep [] = (if pat = [] then rep else [])"
| "replace_first pat rep (c # cs) =
     (if take (length pat) (c # cs) = pat then rep @ drop (length pat) (c # cs)
      else c # replace_first pat rep cs)"

text \<open>
  \<open>replace(/\./g, '-')\<close>: a global regular expression that matches one literal
  character; every occurrence is replaced.
\<close>

definition replace_all_char :: "char \<Rightarrow> char \<Rightarrow> string \<Rightarrow> string" where
  "replace_all_char old new s = map (\<lambda>c. if c = old then new else c) s"

text \<open>
  \<open>String.prototype.toLowerCase\<close>, on the ASCII letters. Characters outside \<open>A\<close>..\<open>Z\<close> are
  left as they are.
\<close>

definition lower_char :: "char \<Rightarrow> char" where
  "lower_char c =
     (case map_of (zip ''ABCDEFGHIJKLMNOPQRSTUVWXYZ'' ''abcdefghijklmnopqrstuvwxyz'') c of
        None \<Rightarrow> c
      | Some l \<Rightarrow> l)"

definition toLowerCase :: "string \<Rightarrow> string" where
  "toLowerCase s = map lower_char s"

text \<open>
  \<open>Array.prototype.reduce(callback, init)\<close>: the callback receives the accumulator, the
  item, the index of the item and the whole array.
\<close>

fun reduce_from :: "('b \<Rightarrow> 'a \<Rightarrow> nat \<Rightarrow> 'a list \<Rightarrow> 'b) \<Rightarrow> 'b \<Rightarrow> nat \<Rightarrow> 'a list \<Rightarrow> 'a list \<Rightarrow> 'b" where
  "reduce_from f memo idx arr [] = memo"
| "reduce_from f memo idx arr (item # items) =
     reduce_from f (f memo item idx arr) (Suc idx) arr items"

definition reduce :: "('b \<Rightarrow> 'a \<Rightarrow> nat \<Rightarrow> 'a list \<Rightarrow> 'b) \<Rightarrow> 'b \<Rightarrow> 'a list \<Rightarrow> 'b" where
  "reduce f init arr = reduce_from f init 0 arr arr"

text \<open>
  \<open>reduce\<close> and \<open>filter\<close> with a callback that may throw (the callbacks below read the
  file system): the first exception ends the loop and is the result.
\<close>

fun reduceE :: "('b \<Rightarrow> 'a \<Rightarrow> 'e + 'b) \<Rightarrow> 'b \<Rightarrow> 'a list \<Rightarrow> 'e + 'b" where
  "reduceE f memo [] = Inr memo"
| "reduceE f memo (item # items) =
     (case f memo item of
        Inl e \<Rightarrow> Inl e
      | Inr memo' \<Rightarrow> reduceE f memo' items)"

fun filterE :: "('a \<Rightarrow> 'e + bool) \<Rightarrow> 'a list \<Rightarrow> 'e + 'a list" where
  "filterE p [] = Inr []"
| "filterE p (item # items) =
     (case p item of
        Inl e \<Rightarrow> Inl e
      | Inr keep \<Rightarrow>
          (case filterE p items of
             Inl e \<Rightarrow> Inl e
           | Inr kept \<Rightarrow> Inr (if keep then item # kept else kept)))"

section \<open>The workspace as a file tree\<close>

text \<open>
  The run's workspace directory is a tree: a regular file with its text (as
  \<open>readFileSync(path, 'utf8')\<close> returns it) or a directory with its entries.
  A directory of a real file system lists every name once; \<open>lookup\<close> takes the first
  entry of a name.
\<close>

datatype node = File string | Dir "(string \<times> node) list"

type_synonym path = "string list"

datatype fs_error = ENOENT | EISDIR | ENOTDIR

fun lookup :: "node \<Rightarrow> path \<Rightarrow> node option" where
  "lookup n [] = Some n"
| "lookup (File text) (s # ss) = None"
| "lookup (Dir entries) (s # ss) =
     (case map_of entries s of
        None \<Rightarrow> None
      | Some child \<Rightarrow> lookup child ss)"

text \<open>
  \<open>path.join\<close> on paths kept as lists of segments: zero-length segments are ignored.
  The segments joined below are directory entries and pieces of directory entries cut at
  dots, so none of them contains a slash or is \<open>.\<close> or \<open>..\<close>.
\<close>

definition path_join :: "path \<Rightarrow> string list \<Rightarrow> path" where
  "path_join base segs = base @ filter (\<lambda>s. s \<noteq> []) segs"

definition existsSync :: "node \<Rightarrow> path \<Rightarrow> bool" where
  "existsSync ws p = (case lookup ws p of None \<Rightarrow> False | Some n \<Rightarrow> True)"

definition readFileSync :: "node \<Rightarrow> path \<Rightarrow> fs_error + string" where
  "readFileSync ws p =
     (case lookup ws p of
        None \<Rightarrow> Inl ENOENT
      | Some (Dir entries) \<Rightarrow> Inl EISDIR
      | Some (File text) \<Rightarrow> Inr text)"

definition readdirSync :: "node \<Rightarrow> path \<Rightarrow> fs_error + string list" where
  "readdirSync ws p =
     (case lookup ws p of
        None \<Rightarrow> Inl ENOENT
      | Some (File text) \<Rightarrow> Inl ENOTDIR
      | Some (Dir entries) \<Rightarrow> Inr (map fst entries))"

text \<open>Paths are relative to the workspace directory \<open>WORKSPACE_DIR_PATH\<close>.\<close>

definition INPUT_DIR_PATH :: path where
  "INPUT_DIR_PATH = [''input'']"

definition OUTPUT_DIR_PATH :: path where
  "OUTPUT_DIR_PATH = [''output'']"

section \<open>Configuration tables\<close>

datatype content_type = Markdown | Text | Image | Html

text \<open>
  \<open>toolOutputFileTypeMap[toolOutputName]\<close>; \<open>None\<close> is the \<open>undefined\<close> of a name that is
  not a key of the table.
\<close>

definition toolOutputFileTypeMap :: "string \<Rightarrow> content_type option" where
  "toolOutputFileTypeMap =
     map_of
       [(''mythril'', Markdown),
        (''oyente'', Text),
        (''surya_graph'', Image),
        (''surya_describe'', Text),
        (''surya_parse'', Text),
        (''surya_ftrace'', Text),
        (''surya_inheritance'', Image),
        (''solhint'', Text),
        (''solidity-coverage'', Html),
        (''solidity-analyzer'', Text),
        (''solium'', Text)]"




section \<open>Contract names and the path normalizer\<close>

definition getContractNames :: "node \<Rightarrow> fs_error + string list" where
  "getContractNames ws =
     (case readdirSync ws (path_join INPUT_DIR_PATH [''contracts_flatten'']) of
        Inl e \<Rightarrow> Inl e
      | Inr filenames \<Rightarrow> Inr (filter (\<lambda>filename. filename \<noteq> ''Migrations.sol'') filenames))"

text \<open>
  The callback of the reduce in \<open>getSubDirPathSplitted\<close>. The comparisons
  \<open>idx === arr.length - 1\<close> and \<open>idx === arr.length - 2\<close> are over JavaScript numbers,
  where \<open>arr.length - 2\<close> is \<open>-1\<close> for a one-element array; they are written over
  \<^typ>\<open>int\<close> so that the subtraction does not truncate.
\<close>

definition subDirStep :: "string list \<Rightarrow> string \<Rightarrow> nat \<Rightarrow> string list \<Rightarrow> string list" where
  "subDirStep memo item idx arr =
     (if int idx = int (length arr) - 1 then memo
      else if int idx = int (length arr) - 2 then memo @ [item @ ''.sol'']
      else memo @ [item])"

definition getSubDirPathSplitted :: "string \<Rightarrow> string list" where
  "getSubDirPathSplitted filePath = reduce subDirStep [] (js_split CHR ''.'' filePath)"

section \<open>File outputs\<close>

record content_variants =
  flatten :: string
  combine :: "string option"
  original :: "string option"

record file_output =
  slug :: string
  name :: string
  content :: content_variants

text \<open>
  The expression of the \<open>slug\<close> property:
  \<open>contractName.replace('.sol', '').replace(/\./g, '-').toLowerCase()\<close>.
\<close>

definition slugOf :: "string \<Rightarrow> string" where
  "slugOf contractName =
     toLowerCase (replace_all_char CHR ''.'' CHR ''-'' (replace_first ''.sol'' [] contractName))"

text \<open>\<open>fs.existsSync(p) ? fs.readFileSync(p, 'utf8') : undefined\<close>\<close>

definition readIfExists :: "node \<Rightarrow> path \<Rightarrow> fs_error + string option" where
  "readIfExists ws p =
     (if existsSync ws p
      then (case readFileSync ws p of Inl e \<Rightarrow> Inl e | Inr text \<Rightarrow> Inr (Some text))
      else Inr None)"

text \<open>
  The object literal built for one contract in \<open>generateFileOutputs\<close>; its properties are
  evaluated in the order of the source.
\<close>

definition fileOutput :: "node \<Rightarrow> string \<Rightarrow> fs_error + file_output" where
  "fileOutput ws contractName =
     (case readFileSync ws (path_join INPUT_DIR_PATH [''contracts_flatten'', contractName]) of
        Inl e \<Rightarrow> Inl e
      | Inr flat \<Rightarrow>
          (case readIfExists ws (path_join INPUT_DIR_PATH [''contracts_combine'', contractName]) of
             Inl e \<Rightarrow> Inl e
           | Inr comb \<Rightarrow>
               (case readIfExists ws
                       (path_join INPUT_DIR_PATH (''contracts'' # getSubDirPathSplitted contractName)) of
                  Inl e \<Rightarrow> Inl e
                | Inr orig \<Rightarrow>
                    Inr \<lparr>slug = slugOf contractName,
                         name = contractName,
                         content = \<lparr>flatten = flat, combine = comb, original = orig\<rparr>\<rparr>)))"

definition fileOutputStep ::
  "node \<Rightarrow> (string \<rightharpoonup> file_output) \<Rightarrow> string \<Rightarrow> fs_error + (string \<rightharpoonup> file_output)" where
  "fileOutputStep ws memo contractName =
     (case fileOutput ws contractName of
        Inl e \<Rightarrow> Inl e
      | Inr fo \<Rightarrow> Inr (memo(contractName \<mapsto> fo)))"

definition generateFileOutputs :: "node \<Rightarrow> string list \<Rightarrow> fs_error + (string \<rightharpoonup> file_output)" where
  "generateFileOutputs ws contractNames = reduceE (fileOutputStep ws) Map.empty contractNames"

section \<open>Tool outputs\<close>

record tool_output =
  tool_type :: "content_type option"
  tool_content :: string

definition getToolOutputNames :: "node \<Rightarrow> fs_error + string list" where
  "getToolOutputNames ws =
     (case readdirSync ws OUTPUT_DIR_PATH of
        Inl e \<Rightarrow> Inl e
      | Inr dirNames \<Rightarrow>
          filterE
            (\<lambda>dirName.
               case readdirSync ws (path_join OUTPUT_DIR_PATH [dirName]) of
                 Inl e \<Rightarrow> Inl e
               | Inr files \<Rightarrow> Inr (length files \<noteq> 0))
            dirNames)"

text \<open>
  The callback of the inner reduce of \<open>generateToolOutputs\<close>. The markdown converter
  \<open>markdownConverter.makeHtml\<close> is a library function, taken as the parameter \<open>makeHtml\<close>.
\<close>

definition toolOutputStep ::
  "(string \<Rightarrow> string) \<Rightarrow> node \<Rightarrow> string \<Rightarrow> (string \<rightharpoonup> tool_output) \<Rightarrow> string
     \<Rightarrow> fs_error + (string \<rightharpoonup> tool_output)" where
  "toolOutputStep makeHtml ws contractName memoToolOutput toolOutputName =
     (if \<not> existsSync ws (path_join OUTPUT_DIR_PATH [toolOutputName, contractName])
      then Inr memoToolOutput
      else (case readFileSync ws (path_join OUTPUT_DIR_PATH [toolOutputName, contractName]) of
              Inl e \<Rightarrow> Inl e
            | Inr text \<Rightarrow>
                Inr (memoToolOutput(toolOutputName \<mapsto>
                  \<lparr>tool_type = toolOutputFileTypeMap toolOutputName,
                   tool_content =
                     (if toolOutputFileTypeMap toolOutputName = Some Markdown
                      then makeHtml text else text)\<rparr>))))"

definition contractToolOutputs ::
  "(string \<Rightarrow> string) \<Rightarrow> node \<Rightarrow> string list \<Rightarrow> string \<Rightarrow> fs_error + (string \<rightharpoonup> tool_output)" where
  "contractToolOutputs makeHtml ws toolOutputNames contractName =
     reduceE (toolOutputStep makeHtml ws contractName) Map.empty toolOutputNames"

definition contractStep ::
  "(string \<Rightarrow> string) \<Rightarrow> node \<Rightarrow> string list \<Rightarrow> (string \<rightharpoonup> (string \<rightharpoonup> tool_output)) \<Rightarrow> string
     \<Rightarrow> fs_error + (string \<rightharpoonup> (string \<rightharpoonup> tool_output))" where
  "contractStep makeHtml ws toolOutputNames memo contractName =
     (case contractToolOutputs makeHtml ws toolOutputNames contractName of
        Inl e \<Rightarrow> Inl e
      | Inr outs \<Rightarrow> Inr (memo(contractName \<mapsto> outs)))"

definition generateToolOutputs ::
  "(string \<Rightarrow> string) \<Rightarrow> node \<Rightarrow> string list \<Rightarrow> string list
     \<Rightarrow> fs_error + (string \<rightharpoonup> (string \<rightharpoonup> tool_output))" where
  "generateToolOutputs makeHtml ws contractNames toolOutputNames =
     reduceE (contractStep makeHtml ws toolOutputNames) Map.empty contractNames"

section \<open>The render object\<close>

record render_object =
  fileOutputs :: "string \<rightharpoonup> file_output"
  toolOutputs :: "string \<rightharpoonup> (string \<rightharpoonup> tool_output)"

definition generateRenderObject ::
  "(string \<rightharpoonup> file_output) \<Rightarrow> (string \<rightharpoonup> (string \<rightharpoonup> tool_output)) \<Rightarrow> render_object" where
  "generateRenderObject fos tos = \<lparr>fileOutputs = fos, toolOutputs = tos\<rparr>"

text \<open>
  \<open>generateReport\<close> up to the object it hands to the template engine; creating the
  destination directory, rendering and writing the report are left to the libraries.
  The statements run in the order of the source.
\<close>

definition generateReport :: "(string \<Rightarrow> string) \<Rightarrow> node \<Rightarrow> fs_error + render_object" where
  "generateReport makeHtml ws =
     (case getToolOutputNames ws of
        Inl e \<Rightarrow> Inl e
      | Inr toolOutputNames \<Rightarrow>
          (case getContractNames ws of
             Inl e \<Rightarrow> Inl e
           | Inr contractNames \<Rightarrow>
               (case generateFileOutputs ws contractNames of
                  Inl e \<Rightarrow> Inl e
                | Inr fos \<Rightarrow>
                    (case generateToolOutputs makeHtml ws contractNames toolOutputNames of
                       Inl e \<Rightarrow> Inl e
                     | Inr tos \<Rightarrow> Inr (generateRenderObject fos tos)))))"

section \<open>Vocabulary of the statements\<close>

text \<open>What is at a path of the workspace: a directory, a regular file, or nothing.\<close>

definition isDirectory :: "node \<Rightarrow> path \<Rightarrow> bool" where
  "isDirectory ws p = (case lookup ws p of Some (Dir entries) \<Rightarrow> True | _ \<Rightarrow> False)"

definition isFile :: "node \<Rightarrow> path \<Rightarrow> bool" where
  "isFile ws p = (case lookup ws p of Some (File text) \<Rightarrow> True | _ \<Rightarrow> False)"

text \<open>The entries of a generated report, read through the result of \<open>generateReport\<close>.\<close>

definition fileOutputIn :: "fs_error + render_object \<Rightarrow> string \<Rightarrow> file_output option" where
  "fileOutputIn result contractName =
     (case result of
        Inl e \<Rightarrow> None
      | Inr r \<Rightarrow> fileOutputs r contractName)"

definition toolOutputIn :: "fs_error + render_object \<Rightarrow> string \<Rightarrow> string \<Rightarrow> tool_output option" where
  "toolOutputIn result contractName toolName =
     (case result of
        Inl e \<Rightarrow> None
      | Inr r \<Rightarrow>
          (case toolOutputs r contractName of
             None \<Rightarrow> None
           | Some outs \<Rightarrow> outs toolName))"

definition slugIn :: "fs_error + render_object \<Rightarrow> string \<Rightarrow> string option" where
  "slugIn result contractName = map_option slug (fileOutputIn result contractName)"

subsection \<open>The rules of the specification, for comparison\<close>

text \<open>
  The path normalizer as the specification words it: it fails with
  \<open>MalformedIdentityError\<close> on fewer than two dot-separated segments; otherwise the final
  segment is the extension, the second-to-last segment with the extension is the file
  name, and the earlier segments are the directories.
\<close>

datatype normalizer_error = MalformedIdentityError

definition PathNormalizer_spec :: "string \<Rightarrow> normalizer_error + string list" where
  "PathNormalizer_spec canonicalName =
     (let segments = js_split CHR ''.'' canonicalName in
      if length segments < 2 then Inl MalformedIdentityError
      else Inr (take (length segments - 2) segments
                @ [segments ! (length segments - 2) @ ''.'' @ last segments]))"

text \<open>
  The slug as the specification words it: strip the extension, replace each separator
  with a hyphen, lowercase.
\<close>

definition stripExtension :: "string \<Rightarrow> string" where
  "stripExtension canonicalName =
     (if 4 \<le> length canonicalName \<and> drop (length canonicalName - 4) canonicalName = ''.sol''
      then take (length canonicalName - 4) canonicalName
      else canonicalName)"

definition slug_spec :: "string \<Rightarrow> string" where
  "slug_spec canonicalName =
     toLowerCase (replace_all_char CHR ''.'' CHR ''-'' (stripExtension canonicalName))"

subsection \<open>Example workspaces\<close>

text \<open>
  A workspace after the tools have run. \<open>SafeMath.sol\<close> comes from a dependency: it is in
  the flattened listing only. The output directory of \<open>mythril\<close> is empty.
\<close>

definition exampleWorkspace :: node where
  "exampleWorkspace =
     Dir [(''input'',
           Dir [(''contracts'',
                 Dir [(''Governance'',
                       Dir [(''Leader'', Dir [(''LeaderGov.sol'', File ''contract LeaderGov {}'')])]),
                      (''Migrations.sol'', File ''contract Migrations {}''),
                      (''Token.sol'', File ''contract Token {}'')]),
                (''contracts_flatten'',
                 Dir [(''Governance.Leader.LeaderGov.sol'', File ''contract LeaderGov {} // flattened''),
                      (''Migrations.sol'', File ''contract Migrations {} // flattened''),
                      (''SafeMath.sol'', File ''library SafeMath {} // flattened''),
                      (''Token.sol'', File ''contract Token {} // flattened'')]),
                (''contracts_combine'',
                 Dir [(''Governance.Leader.LeaderGov.sol'', File ''contract LeaderGov {} // combined''),
                      (''Migrations.sol'', File ''contract Migrations {} // combined'')])]),
          (''output'',
           Dir [(''mythril'', Dir []),
                (''oyente'', Dir [(''Governance.Leader.LeaderGov.sol'', File ''# Report'')]),
                (''solhint'', Dir [(''Token.sol'', File ''no issues'')])])]"

text \<open>A workspace in which \<open>mythril\<close> has written a markdown report.\<close>

definition mythrilWorkspace :: node where
  "mythrilWorkspace =
     Dir [(''input'',
           Dir [(''contracts'', Dir [(''Token.sol'', File ''contract Token {}'')]),
                (''contracts_flatten'', Dir [(''Token.sol'', File ''contract Token {} // flattened'')]),
                (''contracts_combine'', Dir [(''Token.sol'', File ''contract Token {} // combined'')])]),
          (''output'',
           Dir [(''mythril'', Dir [(''Token.sol'', File ''# Analysis results'')])])]"

text \<open>
  A workspace whose contracts directory holds \<open>Math/Safe.sol\<close> and \<open>Math-Safe.sol\<close>; their
  flattened names are \<open>Math.Safe.sol\<close> and \<open>Math-Safe.sol\<close>.
\<close>

definition collisionWorkspace :: node where
  "collisionWorkspace =
     Dir [(''input'',
           Dir [(''contracts'',
                 Dir [(''Math'', Dir [(''Safe.sol'', File ''library Safe {}'')]),
                      (''Math-Safe.sol'', File ''library MathSafe {}'')]),
                (''contracts_flatten'',
                 Dir [(''Math-Safe.sol'', File ''library MathSafe {} // flattened''),
                      (''Math.Safe.sol'', File ''library Safe {} // flattened'')]),
                (''contracts_combine'',
                 Dir [(''Math-Safe.sol'', File ''library MathSafe {} // combined''),
                      (''Math.Safe.sol'', File ''library Safe {} // combined'')])]),
          (''output'', Dir [])]"



text \<open>A stand-in for the markdown converter in the examples.\<close>

definition exampleMakeHtml :: "string \<Rightarrow> string" where
  "exampleMakeHtml text = ''<p>'' @ text @ ''</p>''"

section \<open>Properties of the path normalizer\<close>

lemma js_split_not_Nil: "js_split sep s \<noteq> []"
  by (induction s) (auto split: list.splits)

lemma js_split_no_sep: "sep \<notin> set s \<Longrightarrow> js_split sep s = [s]"
  by (induction s) auto

lemma js_split_length_one: "length (js_split sep s) < 2 \<Longrightarrow> sep \<notin> set s"
proof (induction s)
  case Nil
  then show ?case by simp
next
  case (Cons c cs)
  have ne: "js_split sep cs \<noteq> []" by (rule js_split_not_Nil)
  show ?case
  proof (cases "c = sep")
    case True
    with Cons.prems ne show ?thesis by (cases "js_split sep cs") auto
  next
    case False
    with Cons.prems ne have "length (js_split sep cs) < 2"
      by (cases "js_split sep cs") auto
    with Cons.IH False show ?thesis by simp
  qed
qed

lemma reduce_from_subDirStep:
  "reduce_from subDirStep memo (length pre) (pre @ xs) xs =
     memo @ (if length xs < 2 then []
             else take (length xs - 2) xs @ [xs ! (length xs - 2) @ ''.sol''])"
proof (induction xs arbitrary: memo pre)
  case Nil
  then show ?case by simp
next
  case (Cons x xs)
  have step: "reduce_from subDirStep memo (length pre) (pre @ x # xs) (x # xs) =
      reduce_from subDirStep (subDirStep memo x (length pre) (pre @ x # xs))
        (length (pre @ [x])) ((pre @ [x]) @ xs) xs"
    by simp
  show ?case
  proof (cases xs)
    case Nil
    then show ?thesis by (simp add: subDirStep_def)
  next
    case (Cons y ys)
    note xs = Cons
    show ?thesis
    proof (cases ys)
      case Nil
      with xs show ?thesis
        unfolding step Cons.IH by (simp add: subDirStep_def)
    next
      case (Cons z zs)
      with xs show ?thesis
        unfolding step Cons.IH by (simp add: subDirStep_def)
    qed
  qed
qed

lemma getSubDirPathSplitted_split:
  "getSubDirPathSplitted filePath =
     (let arr = js_split CHR ''.'' filePath in
      if length arr < 2 then []
      else take (length arr - 2) arr @ [arr ! (length arr - 2) @ ''.sol''])"
  using reduce_from_subDirStep [of "[]" "[]" "js_split CHR ''.'' filePath"]
  by (simp add: getSubDirPathSplitted_def reduce_def Let_def)

lemma getSubDirPathSplitted_agrees_with_spec:
  assumes "2 \<le> length (js_split CHR ''.'' canonicalName)"
    and "last (js_split CHR ''.'' canonicalName) = ''sol''"
  shows "PathNormalizer_spec canonicalName = Inr (getSubDirPathSplitted canonicalName)"
  using assms by (simp add: PathNormalizer_spec_def getSubDirPathSplitted_split Let_def)

lemma js_split_Governance:
  "js_split CHR ''.'' ''Governance.Leader.LeaderGov.sol'' = [''Governance'', ''Leader'', ''LeaderGov'', ''sol'']"
  by simp

lemma js_split_Token: "js_split CHR ''.'' ''Token.sol'' = [''Token'', ''sol'']"
  by simp

text \<open>
  C1. For every name with at least two dot-separated segments, the path normalizer splits
  the name on the dot, drops the final segment, turns the second-to-last segment into the
  file name component by appending the extension \<open>.sol\<close>, and keeps all earlier segments,
  in order, as directory components.
\<close>

theorem getSubDirPathSplitted_segments:
  assumes "js_split CHR ''.'' filePath = arr" and "2 \<le> length arr"
  shows "getSubDirPathSplitted filePath =
           take (length arr - 2) arr @ [arr ! (length arr - 2) @ ''.sol'']"
  using assms by (simp add: getSubDirPathSplitted_split Let_def)

theorem getSubDirPathSplitted_segments_witness:
  "getSubDirPathSplitted ''Governance.Leader.LeaderGov.sol'' = [''Governance'', ''Leader'', ''LeaderGov.sol'']
   \<and> getSubDirPathSplitted ''Token.sol'' = [''Token.sol'']
   \<and> length (getSubDirPathSplitted ''Token.sol'') = 1"
  using getSubDirPathSplitted_segments [OF js_split_Governance]
    getSubDirPathSplitted_segments [OF js_split_Token]
  by simp

text \<open>
  C4 as stated fails. The name \<open>Token\<close> has one dot-separated segment. The specification's normalizer fails on
  it with \<open>MalformedIdentityError\<close>; \<open>getSubDirPathSplitted\<close> returns the empty path.
\<close>

theorem getSubDirPathSplitted_no_error:
  "PathNormalizer_spec ''Token'' = Inl MalformedIdentityError
   \<and> getSubDirPathSplitted ''Token'' = []"
  by (simp add: PathNormalizer_spec_def getSubDirPathSplitted_split)

text \<open>
  C4, as the code has it. The path normalizer has no failure: for a name with fewer than
  two dot-separated segments, that is a name without a dot, it returns the empty path.
\<close>

theorem getSubDirPathSplitted_no_dot:
  assumes "length (js_split CHR ''.'' filePath) < 2"
  shows "CHR ''.'' \<notin> set filePath \<and> getSubDirPathSplitted filePath = []"
  using assms js_split_length_one [OF assms]
  by (simp add: getSubDirPathSplitted_split Let_def)

theorem getSubDirPathSplitted_no_dot_witness:
  "length (js_split CHR ''.'' ''Token'') < 2 \<and> getSubDirPathSplitted ''Token'' = []"
  using getSubDirPathSplitted_no_dot [of "''Token''"] by simp

section \<open>Properties of the slug\<close>

lemmas string_defs = slugOf_def slug_spec_def stripExtension_def toLowerCase_def lower_char_def
  replace_all_char_def

lemma slugOf_examples:
  "slugOf ''Governance.Leader.LeaderGov.sol'' = ''governance-leader-leadergov''"
  "slugOf ''Token.sol'' = ''token''"
  by (simp_all add: string_defs)

lemma take4_sol:
  assumes "take 4 (c # cs @ ''.sol'') = ''.sol''"
  shows "\<exists>post. c # cs = ''.sol'' @ post"
proof -
  from assms have c: "c = CHR ''.''" and t: "take 3 (cs @ ''.sol'') = ''sol''" by simp_all
  show ?thesis
  proof (cases cs)
    case Nil
    with t show ?thesis by simp
  next
    case (Cons c1 cs1)
    note cs = Cons
    with t have c1: "c1 = CHR ''s''" and t1: "take 2 (cs1 @ ''.sol'') = ''ol''" by simp_all
    show ?thesis
    proof (cases cs1)
      case Nil
      with t1 show ?thesis by simp
    next
      case (Cons c2 cs2)
      note cs1 = Cons
      with t1 have c2: "c2 = CHR ''o''" and t2: "take 1 (cs2 @ ''.sol'') = ''l''" by simp_all
      show ?thesis
      proof (cases cs2)
        case Nil
        with t2 show ?thesis by simp
      next
        case (Cons c3 cs3)
        with t2 have "c3 = CHR ''l''" by simp
        with c c1 c2 cs cs1 Cons show ?thesis by simp
      qed
    qed
  qed
qed

lemma replace_first_skip:
  "take (length pat) (c # cs) \<noteq> pat \<Longrightarrow> replace_first pat rep (c # cs) = c # replace_first pat rep cs"
  by simp

lemma replace_first_sol_suffix:
  assumes "\<forall>pre post. base \<noteq> pre @ ''.sol'' @ post"
  shows "replace_first ''.sol'' [] (base @ ''.sol'') = base"
  using assms
proof (induction base)
  case Nil
  then show ?case by simp
next
  case (Cons c cs)
  have no: "take 4 (c # cs @ ''.sol'') \<noteq> ''.sol''"
  proof
    assume "take 4 (c # cs @ ''.sol'') = ''.sol''"
    from take4_sol [OF this] obtain post where "c # cs = ''.sol'' @ post" ..
    then have "c # cs = [] @ ''.sol'' @ post" by simp
    with Cons.prems show False by blast
  qed
  have "\<forall>pre post. cs \<noteq> pre @ ''.sol'' @ post"
  proof (intro allI notI)
    fix pre post assume "cs = pre @ ''.sol'' @ post"
    then have "c # cs = (c # pre) @ ''.sol'' @ post" by simp
    with Cons.prems show False by blast
  qed
  from Cons.IH [OF this] have IH: "replace_first ''.sol'' [] (cs @ ''.sol'') = cs" .
  have len: "length ''.sol'' = 4" by simp
  from no have "take (length ''.sol'') (c # cs @ ''.sol'') \<noteq> ''.sol''"
    unfolding len .
  from replace_first_skip [OF this] IH show ?case by (simp only: append_Cons)
qed

lemma stripExtension_suffix: "stripExtension (base @ ''.sol'') = base"
  by (simp add: stripExtension_def)

lemma slugOf_eq_slug_spec:
  assumes "\<forall>pre post. base \<noteq> pre @ ''.sol'' @ post"
  shows "slugOf (base @ ''.sol'') = slug_spec (base @ ''.sol'')"
  by (simp add: slugOf_def slug_spec_def stripExtension_suffix replace_first_sol_suffix [OF assms])

text \<open>
  C8. The slug is meant to be the name without its extension, dots replaced by hyphens,
  in lower case. The code removes the first occurrence of \<open>.sol\<close>, which is not the
  extension when a directory or file name after the first segment starts with \<open>sol\<close>:
  for \<open>lib.solidity.Token.sol\<close> the code gives \<open>libidity-token-sol\<close>, the rule
  \<open>lib-solidity-token\<close>.
\<close>

theorem slugOf_replaces_first_occurrence:
  "slugOf ''lib.solidity.Token.sol'' = ''libidity-token-sol''
   \<and> slug_spec ''lib.solidity.Token.sol'' = ''lib-solidity-token''"
  by (simp add: string_defs)

section \<open>Loops that update a map\<close>

lemma reduceE_update_Inr:
  assumes f: "\<And>memo x. f memo x =
      (case h x of Inl e \<Rightarrow> Inl e | Inr None \<Rightarrow> Inr memo | Inr (Some v) \<Rightarrow> Inr (memo(x \<mapsto> v)))"
  shows "reduceE f memo xs = Inr m \<Longrightarrow>
     (\<forall>k. m k = (if k \<in> set xs then (case h k of Inr (Some v) \<Rightarrow> Some v | _ \<Rightarrow> memo k) else memo k))
     \<and> (\<forall>x\<in>set xs. \<exists>v. h x = Inr v)"
proof (induction xs arbitrary: memo)
  case Nil
  then show ?case by simp
next
  case (Cons a xs)
  from Cons.prems obtain memo' where step: "f memo a = Inr memo'"
    and rest: "reduceE f memo' xs = Inr m"
    by (cases "f memo a") simp_all
  from step f [of memo a] obtain v where v: "h a = Inr v"
    and memo': "memo' = (case v of None \<Rightarrow> memo | Some w \<Rightarrow> memo(a \<mapsto> w))"
    by (cases "h a") (simp_all split: option.splits)
  from Cons.IH [OF rest] v memo' show ?case
    by (auto split: option.splits sum.splits)
qed

lemma reduceE_update_total:
  assumes f: "\<And>memo x. f memo x =
      (case h x of Inl e \<Rightarrow> Inl e | Inr None \<Rightarrow> Inr memo | Inr (Some v) \<Rightarrow> Inr (memo(x \<mapsto> v)))"
  shows "(\<forall>x\<in>set xs. \<exists>v. h x = Inr v) \<Longrightarrow> \<exists>m. reduceE f memo xs = Inr m"
proof (induction xs arbitrary: memo)
  case Nil
  then show ?case by simp
next
  case (Cons a xs)
  from Cons.prems obtain v where v: "h a = Inr v" by auto
  with f [of memo a] obtain memo' where step: "f memo a = Inr memo'"
    by (cases v) simp_all
  from Cons.prems have "\<forall>x\<in>set xs. \<exists>v. h x = Inr v" by simp
  then have "\<exists>m. reduceE f memo' xs = Inr m" by (rule Cons.IH)
  with step show ?case by simp
qed

lemma filterE_Inr:
  "filterE p xs = Inr ys \<Longrightarrow> ys = filter (\<lambda>x. p x = Inr True) xs"
proof (induction xs arbitrary: ys)
  case Nil
  then show ?case by simp
next
  case (Cons a xs)
  from Cons.prems obtain keep kept where keep: "p a = Inr keep"
    and kept: "filterE p xs = Inr kept"
    and ys: "ys = (if keep then a # kept else kept)"
    by (auto split: sum.splits)
  from Cons.IH [OF kept] keep ys show ?case by simp
qed

section \<open>Properties of the file outputs\<close>

lemmas fs_defs = readdirSync_def readFileSync_def existsSync_def path_join_def
  INPUT_DIR_PATH_def OUTPUT_DIR_PATH_def isDirectory_def isFile_def

lemma readIfExists_cases:
  "readIfExists ws p =
     (case lookup ws p of
        None \<Rightarrow> Inr None
      | Some (File text) \<Rightarrow> Inr (Some text)
      | Some (Dir entries) \<Rightarrow> Inl EISDIR)"
  by (simp add: readIfExists_def existsSync_def readFileSync_def split: option.splits node.splits)

lemma fileOutput_Inr_iff:
  "(\<exists>fo. fileOutput ws n = Inr fo) \<longleftrightarrow>
     isFile ws (path_join INPUT_DIR_PATH [''contracts_flatten'', n])
     \<and> \<not> isDirectory ws (path_join INPUT_DIR_PATH [''contracts_combine'', n])
     \<and> \<not> isDirectory ws (path_join INPUT_DIR_PATH (''contracts'' # getSubDirPathSplitted n))"
  by (auto simp: fileOutput_def readIfExists_cases readFileSync_def isFile_def isDirectory_def
      split: option.splits node.splits sum.splits)

lemma fileOutput_Inr:
  assumes "fileOutput ws n = Inr fo"
  shows "slug fo = slugOf n" and "name fo = n"
    and "readFileSync ws (path_join INPUT_DIR_PATH [''contracts_flatten'', n]) = Inr (flatten (content fo))"
    and "combine (content fo) =
           (case lookup ws (path_join INPUT_DIR_PATH [''contracts_combine'', n]) of
              Some (File text) \<Rightarrow> Some text | _ \<Rightarrow> None)"
    and "original (content fo) =
           (case lookup ws (path_join INPUT_DIR_PATH (''contracts'' # getSubDirPathSplitted n)) of
              Some (File text) \<Rightarrow> Some text | _ \<Rightarrow> None)"
  using assms
  by (auto simp: fileOutput_def readIfExists_cases split: option.splits node.splits sum.splits)

lemma fileOutputStep_shape:
  "fileOutputStep ws memo x =
     (case (case fileOutput ws x of Inl e \<Rightarrow> Inl e | Inr fo \<Rightarrow> Inr (Some fo)) of
        Inl e \<Rightarrow> Inl e | Inr None \<Rightarrow> Inr memo | Inr (Some v) \<Rightarrow> Inr (memo(x \<mapsto> v)))"
  by (simp add: fileOutputStep_def split: sum.splits)

lemma generateFileOutputs_Inr:
  assumes "generateFileOutputs ws names = Inr m"
  shows "m n = (if n \<in> set names then (case fileOutput ws n of Inl e \<Rightarrow> None | Inr fo \<Rightarrow> Some fo) else None)"
    and "n \<in> set names \<Longrightarrow> \<exists>fo. fileOutput ws n = Inr fo"
proof -
  have "reduceE (fileOutputStep ws) Map.empty names = Inr m"
    using assms by (simp add: generateFileOutputs_def)
  note * = reduceE_update_Inr [of "fileOutputStep ws", OF fileOutputStep_shape this]
  from * show "m n = (if n \<in> set names then (case fileOutput ws n of Inl e \<Rightarrow> None | Inr fo \<Rightarrow> Some fo) else None)"
    by (auto split: sum.splits)
  show "\<exists>fo. fileOutput ws n = Inr fo" if "n \<in> set names"
  proof -
    from * that obtain v where "(case fileOutput ws n of Inl e \<Rightarrow> Inl e | Inr fo \<Rightarrow> Inr (Some fo)) = Inr v"
      by blast
    then show ?thesis by (cases "fileOutput ws n") simp_all
  qed
qed

lemma generateFileOutputs_total:
  assumes "\<forall>n\<in>set names. \<exists>fo. fileOutput ws n = Inr fo"
  shows "\<exists>m. generateFileOutputs ws names = Inr m"
  unfolding generateFileOutputs_def
proof (rule reduceE_update_total [of "fileOutputStep ws", OF fileOutputStep_shape])
  from assms show "\<forall>x\<in>set names. \<exists>v. (case fileOutput ws x of Inl e \<Rightarrow> Inl e | Inr fo \<Rightarrow> Inr (Some fo)) = Inr v"
    by auto
qed

lemma generateFileOutputs_dom:
  assumes "generateFileOutputs ws names = Inr m"
  shows "dom m = set names"
proof -
  have "m n \<noteq> None \<longleftrightarrow> n \<in> set names" for n
    using generateFileOutputs_Inr [OF assms, of n] by (auto split: sum.splits)
  then show ?thesis by (auto simp: dom_def)
qed

text \<open>
  C9. Where every flattened file of the listing is a regular file and no probed path of
  the combined and original variants is a directory, \<open>generateFileOutputs\<close> returns a model
  in which every contract of the listing has its flattened text, has the original text
  exactly when the path rebuilt by \<open>getSubDirPathSplitted\<close> is a file under \<open>contracts\<close>,
  and has the combined text exactly when a file of its name is in \<open>contracts_combine\<close>;
  a variant is absent exactly when nothing exists at its path.
\<close>

theorem generateFileOutputs_variants:
  assumes "\<forall>n\<in>set names.
             isFile ws (path_join INPUT_DIR_PATH [''contracts_flatten'', n])
             \<and> \<not> isDirectory ws (path_join INPUT_DIR_PATH [''contracts_combine'', n])
             \<and> \<not> isDirectory ws (path_join INPUT_DIR_PATH (''contracts'' # getSubDirPathSplitted n))"
    and "contractName \<in> set names"
  shows "\<exists>m fo. generateFileOutputs ws names = Inr m \<and> m contractName = Some fo
           \<and> readFileSync ws (path_join INPUT_DIR_PATH [''contracts_flatten'', contractName])
               = Inr (flatten (content fo))
           \<and> original (content fo) =
               (case lookup ws (path_join INPUT_DIR_PATH (''contracts'' # getSubDirPathSplitted contractName)) of
                  Some (File text) \<Rightarrow> Some text | _ \<Rightarrow> None)
           \<and> (original (content fo) = None \<longleftrightarrow>
                \<not> existsSync ws (path_join INPUT_DIR_PATH (''contracts'' # getSubDirPathSplitted contractName)))
           \<and> combine (content fo) =
               (case lookup ws (path_join INPUT_DIR_PATH [''contracts_combine'', contractName]) of
                  Some (File text) \<Rightarrow> Some text | _ \<Rightarrow> None)
           \<and> (combine (content fo) = None \<longleftrightarrow>
                \<not> existsSync ws (path_join INPUT_DIR_PATH [''contracts_combine'', contractName]))"
proof -
  from assms(1) have all: "\<forall>n\<in>set names. \<exists>fo. fileOutput ws n = Inr fo"
    by (simp add: fileOutput_Inr_iff)
  from generateFileOutputs_total [OF all]
  obtain m where m: "generateFileOutputs ws names = Inr m" ..
  from all assms(2) obtain fo where fo: "fileOutput ws contractName = Inr fo" by blast
  from generateFileOutputs_Inr(1) [OF m, of contractName] assms(2) fo
  have mfo: "m contractName = Some fo" by simp
  note v = fileOutput_Inr(3,4,5) [OF fo]
  from assms have nd: "\<not> isDirectory ws (path_join INPUT_DIR_PATH [''contracts_combine'', contractName])"
    "\<not> isDirectory ws (path_join INPUT_DIR_PATH (''contracts'' # getSubDirPathSplitted contractName))"
    by simp_all
  have o: "original (content fo) = None \<longleftrightarrow>
      \<not> existsSync ws (path_join INPUT_DIR_PATH (''contracts'' # getSubDirPathSplitted contractName))"
    using v(3) nd(2) by (simp add: existsSync_def isDirectory_def split: option.splits node.splits)
  have c: "combine (content fo) = None \<longleftrightarrow>
      \<not> existsSync ws (path_join INPUT_DIR_PATH [''contracts_combine'', contractName])"
    using v(2) nd(1) by (simp add: existsSync_def isDirectory_def split: option.splits node.splits)
  show ?thesis
  proof (intro exI conjI)
    show "generateFileOutputs ws names = Inr m" by (fact m)
    show "m contractName = Some fo" by (fact mfo)
  qed (fact v o c)+
qed

theorem generateFileOutputs_variants_witness:
  "(\<exists>m fo. generateFileOutputs exampleWorkspace
        [''Governance.Leader.LeaderGov.sol'', ''SafeMath.sol'', ''Token.sol''] = Inr m
      \<and> m ''SafeMath.sol'' = Some fo
      \<and> flatten (content fo) = ''library SafeMath {} // flattened''
      \<and> original (content fo) = None \<and> combine (content fo) = None)
   \<and> (\<exists>m fo. generateFileOutputs exampleWorkspace
        [''Governance.Leader.LeaderGov.sol'', ''SafeMath.sol'', ''Token.sol''] = Inr m
      \<and> m ''Governance.Leader.LeaderGov.sol'' = Some fo
      \<and> flatten (content fo) = ''contract LeaderGov {} // flattened''
      \<and> original (content fo) = Some ''contract LeaderGov {}''
      \<and> combine (content fo) = Some ''contract LeaderGov {} // combined'')"
proof -
  have h: "\<forall>n\<in>set [''Governance.Leader.LeaderGov.sol'', ''SafeMath.sol'', ''Token.sol''].
             isFile exampleWorkspace (path_join INPUT_DIR_PATH [''contracts_flatten'', n])
             \<and> \<not> isDirectory exampleWorkspace (path_join INPUT_DIR_PATH [''contracts_combine'', n])
             \<and> \<not> isDirectory exampleWorkspace (path_join INPUT_DIR_PATH (''contracts'' # getSubDirPathSplitted n))"
    by (simp add: getSubDirPathSplitted_split exampleWorkspace_def fs_defs)
  have a: "\<exists>m fo. generateFileOutputs exampleWorkspace
        [''Governance.Leader.LeaderGov.sol'', ''SafeMath.sol'', ''Token.sol''] = Inr m
      \<and> m ''SafeMath.sol'' = Some fo
      \<and> flatten (content fo) = ''library SafeMath {} // flattened''
      \<and> original (content fo) = None \<and> combine (content fo) = None"
    using generateFileOutputs_variants [OF h, of "''SafeMath.sol''"]
    by (auto simp: getSubDirPathSplitted_split exampleWorkspace_def fs_defs)
  have b: "\<exists>m fo. generateFileOutputs exampleWorkspace
        [''Governance.Leader.LeaderGov.sol'', ''SafeMath.sol'', ''Token.sol''] = Inr m
      \<and> m ''Governance.Leader.LeaderGov.sol'' = Some fo
      \<and> flatten (content fo) = ''contract LeaderGov {} // flattened''
      \<and> original (content fo) = Some ''contract LeaderGov {}''
      \<and> combine (content fo) = Some ''contract LeaderGov {} // combined''"
    using generateFileOutputs_variants [OF h, of "''Governance.Leader.LeaderGov.sol''"]
    by (auto simp: getSubDirPathSplitted_split exampleWorkspace_def fs_defs)
  from a b show ?thesis ..
qed

section \<open>Properties of the tool outputs\<close>

lemma toolOutputStep_shape:
  "toolOutputStep makeHtml ws c memo t =
     (case (case lookup ws (path_join OUTPUT_DIR_PATH [t, c]) of
              None \<Rightarrow> Inr None
            | Some (Dir entries) \<Rightarrow> Inl EISDIR
            | Some (File text) \<Rightarrow>
                Inr (Some \<lparr>tool_type = toolOutputFileTypeMap t,
                           tool_content = (if toolOutputFileTypeMap t = Some Markdown
                                           then makeHtml text else text)\<rparr>)) of
        Inl e \<Rightarrow> Inl e | Inr None \<Rightarrow> Inr memo | Inr (Some v) \<Rightarrow> Inr (memo(t \<mapsto> v)))"
  by (simp add: toolOutputStep_def existsSync_def readFileSync_def split: option.splits node.splits)

lemma contractToolOutputs_Inr:
  assumes "contractToolOutputs makeHtml ws ts c = Inr outs"
  shows "outs t =
           (if t \<in> set ts
            then (case lookup ws (path_join OUTPUT_DIR_PATH [t, c]) of
                    Some (File text) \<Rightarrow>
                      Some \<lparr>tool_type = toolOutputFileTypeMap t,
                            tool_content = (if toolOutputFileTypeMap t = Some Markdown
                                            then makeHtml text else text)\<rparr>
                  | _ \<Rightarrow> None)
            else None)"
    and "t \<in> set ts \<Longrightarrow> \<not> isDirectory ws (path_join OUTPUT_DIR_PATH [t, c])"
proof -
  have "reduceE (toolOutputStep makeHtml ws c) Map.empty ts = Inr outs"
    using assms by (simp add: contractToolOutputs_def)
  note * = reduceE_update_Inr [of "toolOutputStep makeHtml ws c", OF toolOutputStep_shape this]
  from * show "outs t =
           (if t \<in> set ts
            then (case lookup ws (path_join OUTPUT_DIR_PATH [t, c]) of
                    Some (File text) \<Rightarrow>
                      Some \<lparr>tool_type = toolOutputFileTypeMap t,
                            tool_content = (if toolOutputFileTypeMap t = Some Markdown
                                            then makeHtml text else text)\<rparr>
                  | _ \<Rightarrow> None)
            else None)"
    by (auto split: option.splits node.splits)
  show "\<not> isDirectory ws (path_join OUTPUT_DIR_PATH [t, c])" if "t \<in> set ts"
  proof -
    from * that obtain v where
      "(case lookup ws (path_join OUTPUT_DIR_PATH [t, c]) of
              None \<Rightarrow> Inr None
            | Some (Dir entries) \<Rightarrow> Inl EISDIR
            | Some (File text) \<Rightarrow>
                Inr (Some \<lparr>tool_type = toolOutputFileTypeMap t,
                           tool_content = (if toolOutputFileTypeMap t = Some Markdown
                                           then makeHtml text else text)\<rparr>)) = Inr v"
      by blast
    then show ?thesis
      by (simp add: isDirectory_def split: option.splits node.splits)
  qed
qed

lemma contractToolOutputs_total:
  assumes "\<forall>t\<in>set ts. \<not> isDirectory ws (path_join OUTPUT_DIR_PATH [t, c])"
  shows "\<exists>outs. contractToolOutputs makeHtml ws ts c = Inr outs"
  unfolding contractToolOutputs_def
proof (rule reduceE_update_total [of "toolOutputStep makeHtml ws c", OF toolOutputStep_shape])
  from assms show "\<forall>x\<in>set ts. \<exists>v.
       (case lookup ws (path_join OUTPUT_DIR_PATH [x, c]) of
              None \<Rightarrow> Inr None
            | Some (Dir entries) \<Rightarrow> Inl EISDIR
            | Some (File text) \<Rightarrow>
                Inr (Some \<lparr>tool_type = toolOutputFileTypeMap x,
                           tool_content = (if toolOutputFileTypeMap x = Some Markdown
                                           then makeHtml text else text)\<rparr>)) = Inr v"
    by (auto simp: isDirectory_def split: option.splits node.splits)
qed

lemma contractStep_shape:
  "contractStep makeHtml ws ts memo c =
     (case (case contractToolOutputs makeHtml ws ts c of Inl e \<Rightarrow> Inl e | Inr outs \<Rightarrow> Inr (Some outs)) of
        Inl e \<Rightarrow> Inl e | Inr None \<Rightarrow> Inr memo | Inr (Some v) \<Rightarrow> Inr (memo(c \<mapsto> v)))"
  by (simp add: contractStep_def split: sum.splits)

lemma generateToolOutputs_Inr:
  assumes "generateToolOutputs makeHtml ws cs ts = Inr m"
  shows "m c = (if c \<in> set cs
                then (case contractToolOutputs makeHtml ws ts c of Inl e \<Rightarrow> None | Inr outs \<Rightarrow> Some outs)
                else None)"
    and "c \<in> set cs \<Longrightarrow> \<exists>outs. contractToolOutputs makeHtml ws ts c = Inr outs"
proof -
  have "reduceE (contractStep makeHtml ws ts) Map.empty cs = Inr m"
    using assms by (simp add: generateToolOutputs_def)
  note * = reduceE_update_Inr [of "contractStep makeHtml ws ts", OF contractStep_shape this]
  from * show "m c = (if c \<in> set cs
                then (case contractToolOutputs makeHtml ws ts c of Inl e \<Rightarrow> None | Inr outs \<Rightarrow> Some outs)
                else None)"
    by (auto split: sum.splits)
  show "\<exists>outs. contractToolOutputs makeHtml ws ts c = Inr outs" if "c \<in> set cs"
  proof -
    from * that obtain v where
      "(case contractToolOutputs makeHtml ws ts c of Inl e \<Rightarrow> Inl e | Inr outs \<Rightarrow> Inr (Some outs)) = Inr v"
      by blast
    then show ?thesis by (cases "contractToolOutputs makeHtml ws ts c") simp_all
  qed
qed

lemma generateToolOutputs_total:
  assumes "\<forall>c\<in>set cs. \<forall>t\<in>set ts. \<not> isDirectory ws (path_join OUTPUT_DIR_PATH [t, c])"
  shows "\<exists>m. generateToolOutputs makeHtml ws cs ts = Inr m"
  unfolding generateToolOutputs_def
proof (rule reduceE_update_total [of "contractStep makeHtml ws ts", OF contractStep_shape])
  show "\<forall>x\<in>set cs. \<exists>v.
      (case contractToolOutputs makeHtml ws ts x of Inl e \<Rightarrow> Inl e | Inr outs \<Rightarrow> Inr (Some outs)) = Inr v"
  proof
    fix x assume "x \<in> set cs"
    with assms have "\<forall>t\<in>set ts. \<not> isDirectory ws (path_join OUTPUT_DIR_PATH [t, x])" by simp
    from contractToolOutputs_total [OF this, of makeHtml]
    show "\<exists>v. (case contractToolOutputs makeHtml ws ts x of Inl e \<Rightarrow> Inl e | Inr outs \<Rightarrow> Inr (Some outs)) = Inr v"
      by auto
  qed
qed

lemma generateToolOutputs_Inl:
  assumes "generateToolOutputs makeHtml ws cs ts = Inl e"
  shows "\<exists>c\<in>set cs. \<exists>t\<in>set ts. isDirectory ws (path_join OUTPUT_DIR_PATH [t, c])"
proof (rule ccontr)
  assume "\<not> ?thesis"
  then have "\<forall>c\<in>set cs. \<forall>t\<in>set ts. \<not> isDirectory ws (path_join OUTPUT_DIR_PATH [t, c])" by simp
  from generateToolOutputs_total [OF this, of makeHtml] assms show False by simp
qed

lemma generateToolOutputs_dom:
  assumes "generateToolOutputs makeHtml ws cs ts = Inr m"
  shows "dom m = set cs"
proof -
  have "m c \<noteq> None \<longleftrightarrow> c \<in> set cs" for c
    using generateToolOutputs_Inr [OF assms, of c] by (auto split: sum.splits)
  then show ?thesis by (auto simp: dom_def)
qed

lemma exampleWorkspace_toolOutputs: "\<exists>m. generateToolOutputs exampleMakeHtml exampleWorkspace [''Governance.Leader.LeaderGov.sol'', ''SafeMath.sol'', ''Token.sol''] [''oyente'', ''solhint''] = Inr m"
  by (simp add: generateToolOutputs_def contractStep_def contractToolOutputs_def toolOutputStep_def exampleWorkspace_def fs_defs)

text \<open>
  C2. For every tool and contract such that nothing named after the contract exists in
  the tool's output directory, the step of the loop for this pair returns the accumulator
  as it is, without an exception; and, where no probed output path is a directory,
  \<open>generateToolOutputs\<close> returns a model (it does not raise) in which the contract has an
  entry and that entry has no key for the tool.
\<close>

theorem generateToolOutputs_absent_pair:
  assumes "\<forall>c\<in>set cs. \<forall>t\<in>set ts. \<not> isDirectory ws (path_join OUTPUT_DIR_PATH [t, c])"
    and "contractName \<in> set cs"
    and "\<not> existsSync ws (path_join OUTPUT_DIR_PATH [toolName, contractName])"
  shows "(\<forall>memo. toolOutputStep makeHtml ws contractName memo toolName = Inr memo)
         \<and> (\<exists>m outs. generateToolOutputs makeHtml ws cs ts = Inr m
               \<and> m contractName = Some outs \<and> outs toolName = None)"
proof -
  from assms(3) have step: "\<forall>memo. toolOutputStep makeHtml ws contractName memo toolName = Inr memo"
    by (simp add: toolOutputStep_def)
  from generateToolOutputs_total [OF assms(1)]
  obtain m where m: "generateToolOutputs makeHtml ws cs ts = Inr m" ..
  from generateToolOutputs_Inr(2) [OF m assms(2)]
  obtain outs where outs: "contractToolOutputs makeHtml ws ts contractName = Inr outs" ..
  from generateToolOutputs_Inr(1) [OF m, of contractName] assms(2) outs
  have "m contractName = Some outs" by simp
  moreover from contractToolOutputs_Inr(1) [OF outs, of toolName] assms(3)
  have "outs toolName = None" by (simp add: existsSync_def split: option.splits)
  ultimately have "\<exists>m outs. generateToolOutputs makeHtml ws cs ts = Inr m
               \<and> m contractName = Some outs \<and> outs toolName = None"
    using m by blast
  with step show ?thesis ..
qed

theorem generateToolOutputs_absent_pair_witness:
  "\<not> existsSync exampleWorkspace (path_join OUTPUT_DIR_PATH [''solhint'', ''SafeMath.sol''])
   \<and> (\<exists>m outs. generateToolOutputs exampleMakeHtml exampleWorkspace
          [''Governance.Leader.LeaderGov.sol'', ''SafeMath.sol'', ''Token.sol''] [''oyente'', ''solhint''] = Inr m
        \<and> m ''SafeMath.sol'' = Some outs \<and> outs ''solhint'' = None)"
proof -
  have h1: "\<forall>c\<in>set [''Governance.Leader.LeaderGov.sol'', ''SafeMath.sol'', ''Token.sol''].
      \<forall>t\<in>set [''oyente'', ''solhint'']. \<not> isDirectory exampleWorkspace (path_join OUTPUT_DIR_PATH [t, c])"
    by (simp add: exampleWorkspace_def fs_defs)
  have h2: "''SafeMath.sol'' \<in> set [''Governance.Leader.LeaderGov.sol'', ''SafeMath.sol'', ''Token.sol'']"
    by simp
  have h3: "\<not> existsSync exampleWorkspace (path_join OUTPUT_DIR_PATH [''solhint'', ''SafeMath.sol''])"
    by (simp add: exampleWorkspace_def fs_defs)
  from generateToolOutputs_absent_pair [OF h1 h2 h3, of exampleMakeHtml] h3 show ?thesis by blast
qed

text \<open>
  C6. For every tool and contract whose output file can be read, the stored content is
  the markdown conversion of the file text when the content type of the tool is
  \<open>markdown\<close>, and the file text unchanged for every other content type; the stored type
  is the entry of the tool in \<open>toolOutputFileTypeMap\<close>.
\<close>

theorem generateToolOutputs_content:
  assumes "generateToolOutputs makeHtml ws cs ts = Inr m"
    and "contractName \<in> set cs" and "toolName \<in> set ts"
    and "readFileSync ws (path_join OUTPUT_DIR_PATH [toolName, contractName]) = Inr text"
  shows "\<exists>outs. m contractName = Some outs
           \<and> outs toolName =
               Some \<lparr>tool_type = toolOutputFileTypeMap toolName,
                     tool_content = (if toolOutputFileTypeMap toolName = Some Markdown
                                     then makeHtml text else text)\<rparr>"
proof -
  from generateToolOutputs_Inr(2) [OF assms(1,2)]
  obtain outs where outs: "contractToolOutputs makeHtml ws ts contractName = Inr outs" ..
  from generateToolOutputs_Inr(1) [OF assms(1), of contractName] assms(2) outs
  have "m contractName = Some outs" by simp
  moreover from assms(4) have "lookup ws (path_join OUTPUT_DIR_PATH [toolName, contractName]) = Some (File text)"
    by (simp add: readFileSync_def split: option.splits node.splits)
  with contractToolOutputs_Inr(1) [OF outs, of toolName] assms(3)
  have "outs toolName =
               Some \<lparr>tool_type = toolOutputFileTypeMap toolName,
                     tool_content = (if toolOutputFileTypeMap toolName = Some Markdown
                                     then makeHtml text else text)\<rparr>"
    by simp
  ultimately show ?thesis by blast
qed

theorem generateToolOutputs_content_witness:
  "(\<exists>m outs. generateToolOutputs exampleMakeHtml exampleWorkspace
        [''Governance.Leader.LeaderGov.sol'', ''SafeMath.sol'', ''Token.sol''] [''oyente'', ''solhint''] = Inr m
      \<and> m ''Token.sol'' = Some outs
      \<and> outs ''solhint'' = Some \<lparr>tool_type = Some Text, tool_content = ''no issues''\<rparr>)
   \<and> (\<exists>m outs. generateToolOutputs exampleMakeHtml mythrilWorkspace [''Token.sol''] [''mythril''] = Inr m
      \<and> m ''Token.sol'' = Some outs
      \<and> outs ''mythril'' = Some \<lparr>tool_type = Some Markdown, tool_content = ''<p># Analysis results</p>''\<rparr>)"
proof -
  from exampleWorkspace_toolOutputs obtain m where m: "generateToolOutputs exampleMakeHtml exampleWorkspace
        [''Governance.Leader.LeaderGov.sol'', ''SafeMath.sol'', ''Token.sol''] [''oyente'', ''solhint''] = Inr m" ..
  have r: "readFileSync exampleWorkspace (path_join OUTPUT_DIR_PATH [''solhint'', ''Token.sol'']) = Inr ''no issues''"
    by (simp add: exampleWorkspace_def fs_defs)
  from generateToolOutputs_content [OF m _ _ r]
  have a: "\<exists>outs. m ''Token.sol'' = Some outs
      \<and> outs ''solhint'' = Some \<lparr>tool_type = Some Text, tool_content = ''no issues''\<rparr>"
    by (simp add: toolOutputFileTypeMap_def)
  have "\<exists>m'. generateToolOutputs exampleMakeHtml mythrilWorkspace [''Token.sol''] [''mythril''] = Inr m'"
    by (simp add: generateToolOutputs_def contractStep_def contractToolOutputs_def toolOutputStep_def
        mythrilWorkspace_def fs_defs)
  then obtain m' where m': "generateToolOutputs exampleMakeHtml mythrilWorkspace [''Token.sol''] [''mythril''] = Inr m'" ..
  have r': "readFileSync mythrilWorkspace (path_join OUTPUT_DIR_PATH [''mythril'', ''Token.sol'']) = Inr ''# Analysis results''"
    by (simp add: mythrilWorkspace_def fs_defs)
  from generateToolOutputs_content [OF m' _ _ r']
  have b: "\<exists>outs. m' ''Token.sol'' = Some outs
      \<and> outs ''mythril'' = Some \<lparr>tool_type = Some Markdown, tool_content = ''<p># Analysis results</p>''\<rparr>"
    by (simp add: toolOutputFileTypeMap_def exampleMakeHtml_def)
  from m a m' b show ?thesis by blast
qed

section \<open>Properties of the report\<close>

lemma getToolOutputNames_member:
  assumes "getToolOutputNames ws = Inr ts" and "t \<in> set ts"
  shows "\<exists>dirNames files. readdirSync ws OUTPUT_DIR_PATH = Inr dirNames \<and> t \<in> set dirNames
           \<and> readdirSync ws (path_join OUTPUT_DIR_PATH [t]) = Inr files \<and> files \<noteq> []"
proof -
  from assms(1) obtain dirNames where dirNames: "readdirSync ws OUTPUT_DIR_PATH = Inr dirNames"
    and f: "filterE (\<lambda>dirName. case readdirSync ws (path_join OUTPUT_DIR_PATH [dirName]) of
                 Inl e \<Rightarrow> Inl e | Inr files \<Rightarrow> Inr (length files \<noteq> 0)) dirNames = Inr ts"
    by (auto simp: getToolOutputNames_def split: sum.splits)
  from filterE_Inr [OF f] assms(2)
  have "t \<in> set dirNames"
    and "(case readdirSync ws (path_join OUTPUT_DIR_PATH [t]) of
                 Inl e \<Rightarrow> Inl e | Inr files \<Rightarrow> Inr (length files \<noteq> 0)) = Inr True"
    by simp_all
  with dirNames show ?thesis by (auto split: sum.splits)
qed

lemma getContractNames_Inr:
  assumes "getContractNames ws = Inr cs"
    and "readdirSync ws (path_join INPUT_DIR_PATH [''contracts_flatten'']) = Inr listing"
  shows "cs = filter (\<lambda>filename. filename \<noteq> ''Migrations.sol'') listing"
  using assms by (simp add: getContractNames_def)

lemma generateReport_Inr:
  assumes "generateReport makeHtml ws = Inr r"
  shows "\<exists>ts cs. getToolOutputNames ws = Inr ts \<and> getContractNames ws = Inr cs
           \<and> generateFileOutputs ws cs = Inr (fileOutputs r)
           \<and> generateToolOutputs makeHtml ws cs ts = Inr (toolOutputs r)"
  using assms
  by (auto simp: generateReport_def generateRenderObject_def split: sum.splits)

lemmas report_defs = generateReport_def generateRenderObject_def getToolOutputNames_def
  getContractNames_def generateFileOutputs_def fileOutputStep_def fileOutput_def readIfExists_def
  generateToolOutputs_def contractStep_def contractToolOutputs_def toolOutputStep_def
  getSubDirPathSplitted_split

lemma exampleWorkspace_contractNames: "getContractNames exampleWorkspace = Inr [''Governance.Leader.LeaderGov.sol'', ''SafeMath.sol'', ''Token.sol'']"
  by (simp add: getContractNames_def exampleWorkspace_def fs_defs)

lemma exampleWorkspace_toolOutputNames: "getToolOutputNames exampleWorkspace = Inr [''oyente'', ''solhint'']"
  by (simp add: getToolOutputNames_def exampleWorkspace_def fs_defs)

lemma exampleWorkspace_fileOutputs: "\<exists>m. generateFileOutputs exampleWorkspace [''Governance.Leader.LeaderGov.sol'', ''SafeMath.sol'', ''Token.sol''] = Inr m"
  by (simp add: generateFileOutputs_def fileOutputStep_def fileOutput_def readIfExists_def
     getSubDirPathSplitted_split exampleWorkspace_def fs_defs)

lemma exampleWorkspace_report: "\<exists>r. generateReport exampleMakeHtml exampleWorkspace = Inr r"
proof -
  from exampleWorkspace_toolOutputs obtain tos where "generateToolOutputs exampleMakeHtml exampleWorkspace [''Governance.Leader.LeaderGov.sol'', ''SafeMath.sol'', ''Token.sol''] [''oyente'', ''solhint''] = Inr tos" ..
  moreover from exampleWorkspace_fileOutputs obtain fos where "generateFileOutputs exampleWorkspace [''Governance.Leader.LeaderGov.sol'', ''SafeMath.sol'', ''Token.sol''] = Inr fos" ..
  ultimately show ?thesis
    by (simp add: generateReport_def exampleWorkspace_contractNames exampleWorkspace_toolOutputNames)
qed

lemma exampleWorkspace_solhint:
  "toolOutputIn (generateReport exampleMakeHtml exampleWorkspace) ''Token.sol'' ''solhint''
     = Some \<lparr>tool_type = Some Text, tool_content = ''no issues''\<rparr>"
  by (simp add: toolOutputIn_def report_defs exampleWorkspace_def fs_defs toolOutputFileTypeMap_def)

text \<open>
  C3. A tool whose output directory exists and has zero entries is not among the names
  \<open>getToolOutputNames\<close> returns, and it is a key under no contract of the tool outputs of
  the render object.
\<close>

theorem empty_tool_directory_excluded:
  assumes "readdirSync ws (path_join OUTPUT_DIR_PATH [toolName]) = Inr []"
    and "generateReport makeHtml ws = Inr r"
  shows "(\<exists>ts. getToolOutputNames ws = Inr ts \<and> toolName \<notin> set ts)
           \<and> (\<forall>contractName outs. toolOutputs r contractName = Some outs \<longrightarrow> outs toolName = None)"
proof -
  from generateReport_Inr [OF assms(2)] obtain ts cs where ts: "getToolOutputNames ws = Inr ts"
    and tos: "generateToolOutputs makeHtml ws cs ts = Inr (toolOutputs r)"
    by blast
  have notin: "toolName \<notin> set ts"
  proof
    assume "toolName \<in> set ts"
    from getToolOutputNames_member [OF ts this] assms(1) show False by auto
  qed
  have "outs toolName = None" if "toolOutputs r contractName = Some outs" for contractName outs
  proof -
    from generateToolOutputs_Inr(1) [OF tos, of contractName] that
    have "contractToolOutputs makeHtml ws ts contractName = Inr outs"
      by (auto split: if_splits sum.splits)
    from contractToolOutputs_Inr(1) [OF this, of toolName] notin show ?thesis by simp
  qed
  with ts notin show ?thesis by blast
qed

theorem empty_tool_directory_excluded_witness:
  "readdirSync exampleWorkspace (path_join OUTPUT_DIR_PATH [''mythril'']) = Inr []
   \<and> (\<exists>r. generateReport exampleMakeHtml exampleWorkspace = Inr r
        \<and> (\<exists>ts. getToolOutputNames exampleWorkspace = Inr ts \<and> ''mythril'' \<notin> set ts)
        \<and> (\<forall>contractName outs. toolOutputs r contractName = Some outs \<longrightarrow> outs ''mythril'' = None))"
proof -
  have h1: "readdirSync exampleWorkspace (path_join OUTPUT_DIR_PATH [''mythril'']) = Inr []"
    by (simp add: exampleWorkspace_def fs_defs)
  from exampleWorkspace_report obtain r where r: "generateReport exampleMakeHtml exampleWorkspace = Inr r" ..
  from empty_tool_directory_excluded [OF h1 r] h1 r show ?thesis by blast
qed

text \<open>
  C7. The keys of the file outputs and of the tool outputs of the render object are
  exactly the file names of the flattened listing other than \<open>Migrations.sol\<close>; each entry
  carries the name of its key.
\<close>

theorem generateReport_contracts:
  assumes "generateReport makeHtml ws = Inr r"
    and "readdirSync ws (path_join INPUT_DIR_PATH [''contracts_flatten'']) = Inr listing"
  shows "dom (fileOutputs r) = set listing - {''Migrations.sol''}
           \<and> dom (toolOutputs r) = set listing - {''Migrations.sol''}
           \<and> (\<forall>contractName fo. fileOutputs r contractName = Some fo \<longrightarrow> name fo = contractName)"
proof -
  from generateReport_Inr [OF assms(1)] obtain ts cs where cs: "getContractNames ws = Inr cs"
    and fos: "generateFileOutputs ws cs = Inr (fileOutputs r)"
    and tos: "generateToolOutputs makeHtml ws cs ts = Inr (toolOutputs r)"
    by blast
  from getContractNames_Inr [OF cs assms(2)]
  have set_cs: "set cs = set listing - {''Migrations.sol''}" by auto
  have "name fo = contractName" if "fileOutputs r contractName = Some fo" for contractName fo
  proof -
    from generateFileOutputs_Inr(1) [OF fos, of contractName] that
    have "fileOutput ws contractName = Inr fo" by (auto split: if_splits sum.splits)
    then show ?thesis by (rule fileOutput_Inr(2))
  qed
  with generateFileOutputs_dom [OF fos] generateToolOutputs_dom [OF tos] set_cs
  show ?thesis by simp
qed

theorem generateReport_contracts_witness:
  "readdirSync exampleWorkspace (path_join INPUT_DIR_PATH [''contracts_flatten''])
     = Inr [''Governance.Leader.LeaderGov.sol'', ''Migrations.sol'', ''SafeMath.sol'', ''Token.sol'']
   \<and> (\<exists>r. generateReport exampleMakeHtml exampleWorkspace = Inr r
        \<and> dom (fileOutputs r) = {''Governance.Leader.LeaderGov.sol'', ''SafeMath.sol'', ''Token.sol''}
        \<and> dom (toolOutputs r) = {''Governance.Leader.LeaderGov.sol'', ''SafeMath.sol'', ''Token.sol''}
        \<and> ''Migrations.sol'' \<notin> dom (fileOutputs r))"
proof -
  have h: "readdirSync exampleWorkspace (path_join INPUT_DIR_PATH [''contracts_flatten''])
     = Inr [''Governance.Leader.LeaderGov.sol'', ''Migrations.sol'', ''SafeMath.sol'', ''Token.sol'']"
    by (simp add: exampleWorkspace_def fs_defs)
  from exampleWorkspace_report obtain r where r: "generateReport exampleMakeHtml exampleWorkspace = Inr r" ..
  have s: "set [''Governance.Leader.LeaderGov.sol'', ''Migrations.sol'', ''SafeMath.sol'', ''Token.sol''] - {''Migrations.sol''}
      = {''Governance.Leader.LeaderGov.sol'', ''SafeMath.sol'', ''Token.sol''}"
    by auto
  from generateReport_contracts [OF r h] have
    "dom (fileOutputs r) = {''Governance.Leader.LeaderGov.sol'', ''SafeMath.sol'', ''Token.sol''}"
    "dom (toolOutputs r) = {''Governance.Leader.LeaderGov.sol'', ''SafeMath.sol'', ''Token.sol''}"
    unfolding s by simp_all
  with h r show ?thesis by auto
qed

text \<open>
  C5 as stated fails. Two distinct flattened names with one slug: \<open>Math.Safe.sol\<close> and \<open>Math-Safe.sol\<close>. The
  report is generated and both contracts carry the slug \<open>math-safe\<close>.
\<close>

theorem slug_collision_not_detected:
  "''Math.Safe.sol'' \<noteq> ''Math-Safe.sol''
   \<and> slugIn (generateReport exampleMakeHtml collisionWorkspace) ''Math.Safe.sol'' = Some ''math-safe''
   \<and> slugIn (generateReport exampleMakeHtml collisionWorkspace) ''Math-Safe.sol'' = Some ''math-safe''"
  by (simp add: slugIn_def fileOutputIn_def report_defs collisionWorkspace_def fs_defs string_defs)

text \<open>
  C5, as the code has it. The slugs are not compared: when every contract of the listing
  can be read, \<open>generateFileOutputs\<close> returns a model, and two distinct names of the listing
  with equal slugs each have their own entry, under their own name, with the same slug.
\<close>

theorem generateFileOutputs_equal_slugs:
  assumes "\<forall>n\<in>set names. \<exists>fo. fileOutput ws n = Inr fo"
    and "n1 \<in> set names" and "n2 \<in> set names" and "n1 \<noteq> n2" and "slugOf n1 = slugOf n2"
  shows "\<exists>m fo1 fo2. generateFileOutputs ws names = Inr m
           \<and> m n1 = Some fo1 \<and> name fo1 = n1
           \<and> m n2 = Some fo2 \<and> name fo2 = n2
           \<and> slug fo1 = slug fo2"
proof -
  from generateFileOutputs_total [OF assms(1)]
  obtain m where m: "generateFileOutputs ws names = Inr m" ..
  from assms(1,2) obtain fo1 where fo1: "fileOutput ws n1 = Inr fo1" by blast
  from assms(1,3) obtain fo2 where fo2: "fileOutput ws n2 = Inr fo2" by blast
  from generateFileOutputs_Inr(1) [OF m, of n1] assms(2) fo1 have "m n1 = Some fo1" by simp
  moreover from generateFileOutputs_Inr(1) [OF m, of n2] assms(3) fo2 have "m n2 = Some fo2" by simp
  moreover from fileOutput_Inr(1,2) [OF fo1] fileOutput_Inr(1,2) [OF fo2] assms(5)
  have "name fo1 = n1" "name fo2 = n2" "slug fo1 = slug fo2" by simp_all
  ultimately show ?thesis using m by blast
qed

theorem generateFileOutputs_equal_slugs_witness:
  "slugOf ''Math.Safe.sol'' = slugOf ''Math-Safe.sol''
   \<and> (\<exists>m fo1 fo2. generateFileOutputs collisionWorkspace [''Math-Safe.sol'', ''Math.Safe.sol''] = Inr m
        \<and> m ''Math.Safe.sol'' = Some fo1 \<and> name fo1 = ''Math.Safe.sol''
        \<and> m ''Math-Safe.sol'' = Some fo2 \<and> name fo2 = ''Math-Safe.sol''
        \<and> slug fo1 = slug fo2)"
proof -
  have h1: "\<forall>n\<in>set [''Math-Safe.sol'', ''Math.Safe.sol'']. \<exists>fo. fileOutput collisionWorkspace n = Inr fo"
    by (simp add: fileOutput_Inr_iff getSubDirPathSplitted_split collisionWorkspace_def fs_defs)
  have h2: "''Math.Safe.sol'' \<in> set [''Math-Safe.sol'', ''Math.Safe.sol'']"
    and h3: "''Math-Safe.sol'' \<in> set [''Math-Safe.sol'', ''Math.Safe.sol'']"
    and h4: "''Math.Safe.sol'' \<noteq> ''Math-Safe.sol''"
    by simp_all
  have h5: "slugOf ''Math.Safe.sol'' = slugOf ''Math-Safe.sol''"
    by (simp add: string_defs)
  from generateFileOutputs_equal_slugs [OF h1 h2 h3 h4 h5] h5 show ?thesis by blast
qed







end
